theory Spec2Isabelle
  imports Complex_Main
begin

section \<open>Numbers, debts and the stable sort of the host language\<close>

text \<open>
  The dashboard computes with the numbers of the host language. They are modelled as
  exact reals: every finite number of the program is one, and the properties below are
  about the control flow and the algebra of the engine, not about rounding error. The
  values NaN and Infinity are outside the model.

  The declaration of \<open>Debt\<close> lives in \<open>../types\<close>; the record below has the fields
  that the dashboard reads. \<open>interestRate\<close> is optional: the dashboard guards every
  read with \<open>d.interestRate || 0\<close> or tests its truthiness.
\<close>

datatype StrategyType = snowball | avalanche

record Debt =
  name :: string
  initialAmount :: real
  currentAmount :: real
  interestRate :: "real option"
  minPayment :: real
  color :: string

text \<open>\<open>d.interestRate || 0\<close>: an absent rate reads as 0.\<close>

definition rateOrZero :: "Debt \<Rightarrow> real" where
  "rateOrZero d = (case interestRate d of None \<Rightarrow> 0 | Some r \<Rightarrow> r)"

text \<open>The truthiness test \<open>d.interestRate\<close>: present and different from 0.\<close>

definition rateTruthy :: "Debt \<Rightarrow> bool" where
  "rateTruthy d = (case interestRate d of None \<Rightarrow> False | Some r \<Rightarrow> r \<noteq> 0)"

text \<open>
  \<open>Array.prototype.sort\<close> with a comparator is a stable sort (ECMAScript 2019): for a
  consistent comparator its result is determined, and insertion from the right computes
  it. An element goes in front of the first element it does not compare greater than.
\<close>

fun js_insert :: "('a \<Rightarrow> 'a \<Rightarrow> real) \<Rightarrow> 'a \<Rightarrow> 'a list \<Rightarrow> 'a list" where
  "js_insert cmp x [] = [x]"
| "js_insert cmp x (y # ys) =
     (if cmp x y \<le> 0 then x # y # ys else y # js_insert cmp x ys)"

definition js_sort :: "('a \<Rightarrow> 'a \<Rightarrow> real) \<Rightarrow> 'a list \<Rightarrow> 'a list" where
  "js_sort cmp xs = foldr (js_insert cmp) xs []"

text \<open>The two comparators of the dashboard: descending rate, ascending balance.\<close>

definition byRateDesc :: "Debt \<Rightarrow> Debt \<Rightarrow> real" where
  "byRateDesc a b = rateOrZero b - rateOrZero a"

definition byBalanceAsc :: "Debt \<Rightarrow> Debt \<Rightarrow> real" where
  "byBalanceAsc a b = currentAmount a - currentAmount b"

text \<open>\<open>Math.round\<close>: the nearest integer, a tie going up.\<close>

definition Math_round :: "real \<Rightarrow> real" where
  "Math_round x = of_int \<lfloor>x + 1 / 2\<rfloor>"

text \<open>\<open>debts.reduce((acc, d) => acc + d.currentAmount, 0)\<close>\<close>

definition totalDebtOf :: "Debt list \<Rightarrow> real" where
  "totalDebtOf ds = foldl (\<lambda>acc d. acc + currentAmount d) 0 ds"

section \<open>The strategy advisor (\<open>analysis\<close>)\<close>

text \<open>
  The reason is a template string with the debt's name and a number spliced in. The
  model keeps which template was chosen and the spliced values.
\<close>

datatype Reason =
  VeryHighInterest string real
| SmallDebt string real
| Mathematically

record Analysis =
  recommended :: StrategyType
  reason :: Reason
  maxInterestDebt :: Debt
  minBalanceDebt :: Debt

definition analysis :: "Debt list \<Rightarrow> Analysis option" where
  "analysis debts =
     (let activeDebts = filter (\<lambda>d. currentAmount d > 0) debts in
      if length activeDebts = 0 then None
      else
        let maxInterestDebt = hd (js_sort byRateDesc activeDebts);
            minBalanceDebt = hd (js_sort byBalanceAsc activeDebts);
            maxInterest = rateOrZero maxInterestDebt
        in if maxInterest > 40 then
             Some \<lparr>recommended = avalanche,
                   reason = VeryHighInterest (name maxInterestDebt) maxInterest,
                   maxInterestDebt = maxInterestDebt, minBalanceDebt = minBalanceDebt\<rparr>
           else if currentAmount minBalanceDebt < 5000 then
             Some \<lparr>recommended = snowball,
                   reason = SmallDebt (name minBalanceDebt) (currentAmount minBalanceDebt),
                   maxInterestDebt = maxInterestDebt, minBalanceDebt = minBalanceDebt\<rparr>
           else
             Some \<lparr>recommended = avalanche, reason = Mathematically,
                   maxInterestDebt = maxInterestDebt, minBalanceDebt = minBalanceDebt\<rparr>)"

section \<open>The projection engine (\<open>projection\<close>)\<close>

datatype MonthLabel = Hoy | Mes nat

record Point =
  month_label :: MonthLabel
  deuda :: real
  riqueza :: real
  index :: nat

record Projection =
  data :: "Point list"
  debtFreeInMonths :: nat

record SimState =
  simDebts :: "Debt list"
  month :: nat
  currentTotalDebt :: real
  accumulatedWealth :: real
  projectionData :: "Point list"

definition maxMonths :: nat where
  "maxMonths = 60"

text \<open>
  Step 1 of a month: interest on every debt with a positive balance and a truthy rate.
  Under that guard the rate is present, and \<open>rateOrZero\<close> reads it.
\<close>

definition applyInterest :: "Debt list \<Rightarrow> Debt list" where
  "applyInterest ds =
     map (\<lambda>d. if currentAmount d > 0 \<and> rateTruthy d
               then let monthlyRate = (rateOrZero d / 100) / 12
                    in d\<lparr>currentAmount := currentAmount d + currentAmount d * monthlyRate\<rparr>
               else d) ds"

text \<open>
  Step 2: the minimum of every debt with a positive balance, taken from the debt and from
  the running budget, in list order. The result is the list and the budget left.
\<close>

fun payMinimums :: "Debt list \<Rightarrow> real \<Rightarrow> Debt list \<times> real" where
  "payMinimums [] monthlyBudget = ([], monthlyBudget)"
| "payMinimums (d # ds) monthlyBudget =
     (if currentAmount d > 0 then
        let payment = min (currentAmount d) (minPayment d);
            (ds', b') = payMinimums ds (monthlyBudget - payment)
        in (d\<lparr>currentAmount := currentAmount d - payment\<rparr> # ds', b')
      else
        let (ds', b') = payMinimums ds monthlyBudget in (d # ds', b'))"

text \<open>
  Step 3. \<open>activeDebts\<close> is a fresh array of references into \<open>simDebts\<close>; a reference is
  modelled as the position of the object in \<open>simDebts\<close>. Sorting the fresh array leaves
  \<open>simDebts\<close> in its order, and the payment is written through the reference.
\<close>

definition targetDebt :: "StrategyType \<Rightarrow> Debt list \<Rightarrow> nat" where
  "targetDebt currentStrategy ds =
     (let activeDebts = filter (\<lambda>i. currentAmount (ds ! i) > 0) [0..<length ds] in
      if currentStrategy = snowball
      then hd (js_sort (\<lambda>a b. byBalanceAsc (ds ! a) (ds ! b)) activeDebts)
      else hd (js_sort (\<lambda>a b. byRateDesc (ds ! a) (ds ! b)) activeDebts))"

definition payExtra ::
  "StrategyType \<Rightarrow> Debt list \<Rightarrow> real \<Rightarrow> real \<Rightarrow> Debt list \<times> real \<times> real" where
  "payExtra currentStrategy ds monthlyBudget wealth =
     (if monthlyBudget > 0 then
        let activeDebts = filter (\<lambda>i. currentAmount (ds ! i) > 0) [0..<length ds] in
        if length activeDebts > 0 then
          let t = targetDebt currentStrategy ds;
              extraPayment = min (currentAmount (ds ! t)) monthlyBudget
          in (ds[t := (ds ! t)\<lparr>currentAmount := currentAmount (ds ! t) - extraPayment\<rparr>],
              monthlyBudget - extraPayment, wealth)
        else (ds, monthlyBudget, wealth + monthlyBudget)
      else (ds, monthlyBudget, wealth))"

text \<open>One pass through the loop body; \<open>paymentCapacity\<close> is the budget of every month.\<close>

definition simMonth :: "real \<Rightarrow> StrategyType \<Rightarrow> SimState \<Rightarrow> SimState" where
  "simMonth paymentCapacity currentStrategy s =
     (let m = month s + 1;
          d1 = applyInterest (simDebts s);
          (d2, b2) = payMinimums d1 paymentCapacity;
          (d3, b3, w3) = payExtra currentStrategy d2 b2 (accumulatedWealth s);
          total = totalDebtOf d3;
          w4 = (if total = 0 \<and> b3 > 0 then w3 + b3 else w3)
      in \<lparr>simDebts = d3, month = m, currentTotalDebt = total, accumulatedWealth = w4,
          projectionData = projectionData s @
            [\<lparr>month_label = Mes m, deuda = max 0 (Math_round total),
              riqueza = Math_round w4, index = m\<rparr>]\<rparr>)"

definition loopCond :: "SimState \<Rightarrow> bool" where
  "loopCond s = ((currentTotalDebt s > 0 \<or> month s < 12) \<and> month s < maxMonths)"

function simLoop :: "real \<Rightarrow> StrategyType \<Rightarrow> SimState \<Rightarrow> SimState" where
  "simLoop paymentCapacity currentStrategy s =
     (if loopCond s
      then simLoop paymentCapacity currentStrategy (simMonth paymentCapacity currentStrategy s)
      else s)"
  by pat_completeness auto
termination
  by (relation "measure (\<lambda>(pc, st, s). maxMonths - month s)")
     (auto simp: loopCond_def simMonth_def Let_def split: prod.splits)

declare simLoop.simps [simp del]

text \<open>The state before the loop, with the seed point already pushed.\<close>

definition initState :: "Debt list \<Rightarrow> SimState" where
  "initState debts =
     \<lparr>simDebts = debts, month = 0, currentTotalDebt = totalDebtOf debts,
      accumulatedWealth = 0,
      projectionData = [\<lparr>month_label = Hoy, deuda = totalDebtOf debts, riqueza = 0, index = 0\<rparr>]\<rparr>"

text \<open>
  \<open>projectionData.find(p => p.deuda === 0)?.index || maxMonths\<close>: no such point, or
  one with index 0, gives \<open>maxMonths\<close>.
\<close>

definition debtFreeMonth :: "Point list \<Rightarrow> nat" where
  "debtFreeMonth ps =
     (case find (\<lambda>p. deuda p = 0) ps of
        None \<Rightarrow> maxMonths
      | Some p \<Rightarrow> if index p = 0 then maxMonths else index p)"

text \<open>
  The memoised projection. Its inputs are the debts, the payment capacity and the strategy
  in force, as in its dependency list. It is \<open>null\<close> when the total debt of the input
  is 0. The field \<open>debtFreeDate\<close> reads the clock and is left out.
\<close>

definition projection :: "Debt list \<Rightarrow> real \<Rightarrow> StrategyType \<Rightarrow> Projection option" where
  "projection debts paymentCapacity currentStrategy =
     (if totalDebtOf debts = 0 then None
      else
        let s = simLoop paymentCapacity currentStrategy (initState debts)
        in Some \<lparr>data = projectionData s, debtFreeInMonths = debtFreeMonth (projectionData s)\<rparr>)"

section \<open>The login gate (\<open>handleLogin\<close>)\<close>

datatype UserProfile = Edna | Ronaldo

record LoginState =
  selectedUser :: "UserProfile option"
  pin :: string
  error :: string

text \<open>
  The handler returns the new component state and the call of \<open>onLogin\<close> it made, if
  any.
\<close>

definition handleLogin :: "LoginState \<Rightarrow> LoginState \<times> UserProfile option" where
  "handleLogin s =
     (case selectedUser s of
        None \<Rightarrow> (s, None)
      | Some u \<Rightarrow>
          if pin s = ''2024'' then (s, Some u)
          else (s\<lparr>error := ''PIN Incorrecto'', pin := ''''\<rparr>, None))"

text \<open>
  The component renders the two user buttons while no user is selected, and the PIN form,
  whose submission is the only caller of \<open>handleLogin\<close>, once one is.
\<close>

definition pinFormRendered :: "LoginState \<Rightarrow> bool" where
  "pinFormRendered s = (selectedUser s \<noteq> None)"

section \<open>Sample inputs\<close>

text \<open>
  Debt lists on which the properties below are evaluated: two debts tied in rate and in
  balance behind a third, the two debts of scenario B, a budget short of the minimums,
  debts already at zero, a debt paid off in the first month, a debt that never shrinks,
  and a balance that is not a whole number.
\<close>

definition mkDebt :: "string \<Rightarrow> real \<Rightarrow> real option \<Rightarrow> real \<Rightarrow> Debt" where
  "mkDebt n amount rate minPay =
     \<lparr>name = n, initialAmount = amount, currentAmount = amount, interestRate = rate,
      minPayment = minPay, color = ''''\<rparr>"

definition tiedDebts :: "Debt list" where
  "tiedDebts = [mkDebt ''A'' 100 (Some 10) 10, mkDebt ''B'' 50 (Some 30) 10,
                mkDebt ''C'' 50 (Some 30) 10]"

definition scenarioB :: "Debt list" where
  "scenarioB = [mkDebt ''A'' 1000 (Some 60) 100, mkDebt ''B'' 5000 (Some 10) 100]"

definition underfunded :: "Debt list" where
  "underfunded = [mkDebt ''A'' 1000 None 100, mkDebt ''B'' 1000 None 100]"

definition settledDebts :: "Debt list" where
  "settledDebts = [mkDebt ''A'' 0 (Some 10) 50, mkDebt ''B'' 0 None 0]"

definition paidOffEarly :: "Debt list" where
  "paidOffEarly = [mkDebt ''A'' 1000 (Some 0) 500]"

definition stuckDebt :: "Debt list" where
  "stuckDebt = [mkDebt ''A'' 1000 None 0]"


section \<open>Properties of the login gate\<close>

text \<open>
  C10. The handler calls \<open>onLogin\<close> with a user exactly when that user is selected and
  the PIN is the string 2024. Whenever the PIN form is on screen and the PIN is any other
  string, the handler sets the error to "PIN Incorrecto", empties the PIN and calls
  nothing.
\<close>

theorem handleLogin_gate:
  "(snd (handleLogin s) = Some u \<longleftrightarrow> selectedUser s = Some u \<and> pin s = ''2024'') \<and>
   (pinFormRendered s \<and> pin s \<noteq> ''2024'' \<longrightarrow>
      handleLogin s = (s\<lparr>error := ''PIN Incorrecto'', pin := ''''\<rparr>, None))"
  by (auto simp: handleLogin_def pinFormRendered_def split: option.splits)

theorem handleLogin_gate_witness:
  "pinFormRendered \<lparr>selectedUser = Some Edna, pin = ''1234'', error = ''''\<rparr> \<and>
   pin \<lparr>selectedUser = Some Edna, pin = ''1234'', error = ''''\<rparr> \<noteq> ''2024'' \<and>
   handleLogin \<lparr>selectedUser = Some Edna, pin = ''1234'', error = ''''\<rparr> =
     (\<lparr>selectedUser = Some Edna, pin = '''', error = ''PIN Incorrecto''\<rparr>, None) \<and>
   handleLogin \<lparr>selectedUser = Some Edna, pin = ''2024'', error = ''''\<rparr> =
     (\<lparr>selectedUser = Some Edna, pin = ''2024'', error = ''''\<rparr>, Some Edna)"
proof -
  have r: "pinFormRendered \<lparr>selectedUser = Some Edna, pin = ''1234'', error = ''''\<rparr>"
    by (simp add: pinFormRendered_def)
  have ok: "handleLogin \<lparr>selectedUser = Some Edna, pin = ''2024'', error = ''''\<rparr> =
     (\<lparr>selectedUser = Some Edna, pin = ''2024'', error = ''''\<rparr>, Some Edna)"
    by (simp add: handleLogin_def)
  show ?thesis
    using handleLogin_gate [of "\<lparr>selectedUser = Some Edna, pin = ''1234'', error = ''''\<rparr>" Edna]
      r ok
    by simp
qed

section \<open>The stable sort picks the first best element\<close>

lemma length_js_insert: "length (js_insert cmp x ys) = Suc (length ys)"
  by (induction ys) auto

lemma length_js_sort: "length (js_sort cmp xs) = length xs"
  by (induction xs) (auto simp: js_sort_def length_js_insert)

lemma hd_js_insert:
  "hd (js_insert cmp x ys) = (if ys = [] \<or> cmp x (hd ys) \<le> 0 then x else hd ys)"
  by (cases ys) auto

lemma hd_js_sort_first_min:
  assumes "xs \<noteq> []"
  shows "\<exists>i<length xs. hd (js_sort (\<lambda>a b. f a - f b) xs) = xs ! i \<and>
           (\<forall>y\<in>set xs. f (xs ! i) \<le> f y) \<and> (\<forall>j<i. f (xs ! i) < f (xs ! j))"
  using assms
proof (induction xs)
  case Nil
  then show ?case by simp
next
  case (Cons x xs)
  show ?case
  proof (cases "xs = []")
    case True
    then show ?thesis by (simp add: js_sort_def)
  next
    case False
    from Cons.IH [OF False] obtain i where i: "i < length xs"
      "hd (js_sort (\<lambda>a b. f a - f b) xs) = xs ! i"
      "\<forall>y\<in>set xs. f (xs ! i) \<le> f y" "\<forall>j<i. f (xs ! i) < f (xs ! j)"
      by blast
    have ne: "js_sort (\<lambda>a b. f a - f b) xs \<noteq> []"
      using False length_js_sort [of "\<lambda>a b. f a - f b" xs] by auto
    have step: "js_sort (\<lambda>a b. f a - f b) (x # xs) =
        js_insert (\<lambda>a b. f a - f b) x (js_sort (\<lambda>a b. f a - f b) xs)"
      by (simp add: js_sort_def)
    show ?thesis
    proof (cases "f x \<le> f (xs ! i)")
      case True
      then have "hd (js_sort (\<lambda>a b. f a - f b) (x # xs)) = x"
        using ne i(2) by (simp add: step hd_js_insert)
      moreover have "\<forall>y\<in>set (x # xs). f x \<le> f y"
        using True i(3) by auto
      ultimately show ?thesis
        by (intro exI [of _ 0]) simp
    next
      case False
      then have "hd (js_sort (\<lambda>a b. f a - f b) (x # xs)) = xs ! i"
        using ne i(2) by (simp add: step hd_js_insert)
      moreover have "\<forall>y\<in>set (x # xs). f (xs ! i) \<le> f y"
        using False i(3) by auto
      moreover have "\<forall>j<Suc i. f (xs ! i) < f ((x # xs) ! j)"
        using False i(4) by (auto simp: less_Suc_eq_0_disj)
      ultimately show ?thesis
        using i(1) by (intro exI [of _ "Suc i"]) simp
    qed
  qed
qed

lemma filter_nth_origin:
  "i < length (filter P xs) \<Longrightarrow>
   \<exists>k<length xs. xs ! k = filter P xs ! i \<and>
     (\<forall>j<k. P (xs ! j) \<longrightarrow> (\<exists>j'<i. filter P xs ! j' = xs ! j))"
proof (induction xs arbitrary: i)
  case Nil
  then show ?case by simp
next
  case (Cons x xs)
  show ?case
  proof (cases "P x")
    case False
    with Cons.prems have "i < length (filter P xs)" by simp
    from Cons.IH [OF this] obtain k where k: "k < length xs" "xs ! k = filter P xs ! i"
      "\<forall>j<k. P (xs ! j) \<longrightarrow> (\<exists>j'<i. filter P xs ! j' = xs ! j)" by blast
    have "\<forall>j<Suc k. P ((x # xs) ! j) \<longrightarrow> (\<exists>j'<i. filter P (x # xs) ! j' = (x # xs) ! j)"
      using False k(3) by (auto simp: less_Suc_eq_0_disj)
    then show ?thesis
      using False k(1,2) by (intro exI [of _ "Suc k"]) simp
  next
    case True
    show ?thesis
    proof (cases i)
      case 0
      then show ?thesis using True by (intro exI [of _ 0]) simp
    next
      case (Suc i')
      with Cons.prems True have "i' < length (filter P xs)" by simp
      from Cons.IH [OF this] obtain k where k: "k < length xs" "xs ! k = filter P xs ! i'"
        "\<forall>j<k. P (xs ! j) \<longrightarrow> (\<exists>j'<i'. filter P xs ! j' = xs ! j)" by blast
      have "\<forall>j<Suc k. P ((x # xs) ! j) \<longrightarrow> (\<exists>j'<i. filter P (x # xs) ! j' = (x # xs) ! j)"
      proof (intro allI impI)
        fix j assume j: "j < Suc k" "P ((x # xs) ! j)"
        show "\<exists>j'<i. filter P (x # xs) ! j' = (x # xs) ! j"
        proof (cases j)
          case 0
          then show ?thesis using True Suc by (intro exI [of _ 0]) simp
        next
          case (Suc j0)
          with j k(3) obtain j' where "j' < i'" "filter P xs ! j' = xs ! j0" by auto
          then show ?thesis using True Suc \<open>i = Suc i'\<close>
            by (intro exI [of _ "Suc j'"]) simp
        qed
      qed
      then show ?thesis
        using True Suc k(1,2) by (intro exI [of _ "Suc k"]) simp
    qed
  qed
qed

lemma first_min_filter:
  assumes "filter P xs \<noteq> []"
  shows "\<exists>k<length xs. hd (js_sort (\<lambda>a b. f a - f b) (filter P xs)) = xs ! k \<and> P (xs ! k) \<and>
           (\<forall>j<length xs. P (xs ! j) \<longrightarrow> f (xs ! k) \<le> f (xs ! j)) \<and>
           (\<forall>j<k. P (xs ! j) \<longrightarrow> f (xs ! k) < f (xs ! j))"
proof -
  let ?ys = "filter P xs"
  from hd_js_sort_first_min [OF assms, of f] obtain i where i: "i < length ?ys"
    "hd (js_sort (\<lambda>a b. f a - f b) ?ys) = ?ys ! i"
    "\<forall>y\<in>set ?ys. f (?ys ! i) \<le> f y" "\<forall>j<i. f (?ys ! i) < f (?ys ! j)"
    by blast
  from filter_nth_origin [OF i(1)] obtain k where k: "k < length xs" "xs ! k = ?ys ! i"
    "\<forall>j<k. P (xs ! j) \<longrightarrow> (\<exists>j'<i. ?ys ! j' = xs ! j)" by blast
  have "?ys ! i \<in> set ?ys" using i(1) by (rule nth_mem)
  then have Pk: "P (xs ! k)" using k(2) by simp
  have le: "\<forall>j<length xs. P (xs ! j) \<longrightarrow> f (xs ! k) \<le> f (xs ! j)"
  proof (intro allI impI)
    fix j assume "j < length xs" "P (xs ! j)"
    then have "xs ! j \<in> set ?ys" by simp
    with i(3) k(2) show "f (xs ! k) \<le> f (xs ! j)" by simp
  qed
  have lt: "\<forall>j<k. P (xs ! j) \<longrightarrow> f (xs ! k) < f (xs ! j)"
  proof (intro allI impI)
    fix j assume "j < k" "P (xs ! j)"
    with k(3) obtain j' where "j' < i" "?ys ! j' = xs ! j" by blast
    with i(4) k(2) show "f (xs ! k) < f (xs ! j)" by metis
  qed
  show ?thesis
    using k(1) i(2) k(2) Pk le lt by (intro exI [of _ k]) simp
qed

lemma byRateDesc_key: "byRateDesc = (\<lambda>a b. (- rateOrZero a) - (- rateOrZero b))"
  by (simp add: fun_eq_iff byRateDesc_def)

lemma byBalanceAsc_key: "byBalanceAsc = (\<lambda>a b. currentAmount a - currentAmount b)"
  by (simp add: fun_eq_iff byBalanceAsc_def)

lemma analysis_Some:
  "analysis debts = Some r \<Longrightarrow>
     filter (\<lambda>d. currentAmount d > 0) debts \<noteq> [] \<and>
     maxInterestDebt r = hd (js_sort byRateDesc (filter (\<lambda>d. currentAmount d > 0) debts)) \<and>
     minBalanceDebt r = hd (js_sort byBalanceAsc (filter (\<lambda>d. currentAmount d > 0) debts))"
  by (auto simp: analysis_def Let_def split: if_splits)

lemma hd_byRateDesc_first:
  assumes "filter P debts \<noteq> []"
  shows "\<exists>k<length debts. hd (js_sort byRateDesc (filter P debts)) = debts ! k \<and> P (debts ! k) \<and>
           (\<forall>j<length debts. P (debts ! j) \<longrightarrow> rateOrZero (debts ! j) \<le> rateOrZero (debts ! k)) \<and>
           (\<forall>j<k. P (debts ! j) \<longrightarrow> rateOrZero (debts ! j) < rateOrZero (debts ! k))"
  using first_min_filter [OF assms, of "\<lambda>d. - rateOrZero d"]
  by (simp add: byRateDesc_key)

lemma hd_byBalanceAsc_first:
  assumes "filter P debts \<noteq> []"
  shows "\<exists>k<length debts. hd (js_sort byBalanceAsc (filter P debts)) = debts ! k \<and> P (debts ! k) \<and>
           (\<forall>j<length debts. P (debts ! j) \<longrightarrow> currentAmount (debts ! k) \<le> currentAmount (debts ! j)) \<and>
           (\<forall>j<k. P (debts ! j) \<longrightarrow> currentAmount (debts ! k) < currentAmount (debts ! j))"
  using first_min_filter [OF assms, of "currentAmount"]
  by (simp add: byBalanceAsc_key)

lemma targetDebt_avalanche_first:
  assumes "\<exists>i<length ds. 0 < currentAmount (ds ! i)"
  shows "targetDebt avalanche ds < length ds \<and> 0 < currentAmount (ds ! targetDebt avalanche ds) \<and>
     (\<forall>j<length ds. 0 < currentAmount (ds ! j) \<longrightarrow>
        rateOrZero (ds ! j) \<le> rateOrZero (ds ! targetDebt avalanche ds)) \<and>
     (\<forall>j<targetDebt avalanche ds. 0 < currentAmount (ds ! j) \<longrightarrow>
        rateOrZero (ds ! j) < rateOrZero (ds ! targetDebt avalanche ds))"
proof -
  let ?P = "\<lambda>i. currentAmount (ds ! i) > 0"
  have ne: "filter ?P [0..<length ds] \<noteq> []"
    using assms by (auto simp: filter_empty_conv)
  have cmp: "(\<lambda>a b. byRateDesc (ds ! a) (ds ! b)) =
      (\<lambda>a b. (- rateOrZero (ds ! a)) - (- rateOrZero (ds ! b)))"
    by (simp add: byRateDesc_def fun_eq_iff)
  from first_min_filter [OF ne, of "\<lambda>i. - rateOrZero (ds ! i)"]
  obtain k where k: "k < length ds"
    "hd (js_sort (\<lambda>a b. byRateDesc (ds ! a) (ds ! b)) (filter ?P [0..<length ds])) = k"
    "?P k"
    "\<forall>j<length ds. ?P j \<longrightarrow> rateOrZero (ds ! j) \<le> rateOrZero (ds ! k)"
    "\<forall>j<k. ?P j \<longrightarrow> rateOrZero (ds ! j) < rateOrZero (ds ! k)"
    unfolding cmp by auto
  have "targetDebt avalanche ds = k"
    using k(2) by (simp add: targetDebt_def)
  with k show ?thesis by simp
qed

lemma targetDebt_snowball_first:
  assumes "\<exists>i<length ds. 0 < currentAmount (ds ! i)"
  shows "targetDebt snowball ds < length ds \<and> 0 < currentAmount (ds ! targetDebt snowball ds) \<and>
     (\<forall>j<length ds. 0 < currentAmount (ds ! j) \<longrightarrow>
        currentAmount (ds ! targetDebt snowball ds) \<le> currentAmount (ds ! j)) \<and>
     (\<forall>j<targetDebt snowball ds. 0 < currentAmount (ds ! j) \<longrightarrow>
        currentAmount (ds ! targetDebt snowball ds) < currentAmount (ds ! j))"
proof -
  let ?P = "\<lambda>i. currentAmount (ds ! i) > 0"
  have ne: "filter ?P [0..<length ds] \<noteq> []"
    using assms by (auto simp: filter_empty_conv)
  have cmp: "(\<lambda>a b. byBalanceAsc (ds ! a) (ds ! b)) =
      (\<lambda>a b. currentAmount (ds ! a) - currentAmount (ds ! b))"
    by (simp add: byBalanceAsc_def fun_eq_iff)
  from first_min_filter [OF ne, of "\<lambda>i. currentAmount (ds ! i)"]
  obtain k where k: "k < length ds"
    "hd (js_sort (\<lambda>a b. byBalanceAsc (ds ! a) (ds ! b)) (filter ?P [0..<length ds])) = k"
    "?P k"
    "\<forall>j<length ds. ?P j \<longrightarrow> currentAmount (ds ! k) \<le> currentAmount (ds ! j)"
    "\<forall>j<k. ?P j \<longrightarrow> currentAmount (ds ! k) < currentAmount (ds ! j)"
    unfolding cmp by auto
  have "targetDebt snowball ds = k"
    using k(2) by (simp add: targetDebt_def)
  with k show ?thesis by simp
qed

text \<open>
  C8. The advisor's debt of highest interest is an active debt of the input list whose rate
  no active debt exceeds and which every active debt before it in the list falls short
  of: among active debts of equal rate the first one is taken. The same holds for the
  debt of lowest balance, and for the target of the extra payment under either strategy.
\<close>

theorem tie_break_first_occurrence:
  "(analysis debts = Some r \<longrightarrow>
      (\<exists>k<length debts. maxInterestDebt r = debts ! k \<and> 0 < currentAmount (debts ! k) \<and>
         (\<forall>j<length debts. 0 < currentAmount (debts ! j) \<longrightarrow>
            rateOrZero (debts ! j) \<le> rateOrZero (debts ! k)) \<and>
         (\<forall>j<k. 0 < currentAmount (debts ! j) \<longrightarrow>
            rateOrZero (debts ! j) < rateOrZero (debts ! k))) \<and>
      (\<exists>k<length debts. minBalanceDebt r = debts ! k \<and> 0 < currentAmount (debts ! k) \<and>
         (\<forall>j<length debts. 0 < currentAmount (debts ! j) \<longrightarrow>
            currentAmount (debts ! k) \<le> currentAmount (debts ! j)) \<and>
         (\<forall>j<k. 0 < currentAmount (debts ! j) \<longrightarrow>
            currentAmount (debts ! k) < currentAmount (debts ! j)))) \<and>
   ((\<exists>i<length ds. 0 < currentAmount (ds ! i)) \<longrightarrow>
      (targetDebt avalanche ds < length ds \<and> 0 < currentAmount (ds ! targetDebt avalanche ds) \<and>
       (\<forall>j<length ds. 0 < currentAmount (ds ! j) \<longrightarrow>
          rateOrZero (ds ! j) \<le> rateOrZero (ds ! targetDebt avalanche ds)) \<and>
       (\<forall>j<targetDebt avalanche ds. 0 < currentAmount (ds ! j) \<longrightarrow>
          rateOrZero (ds ! j) < rateOrZero (ds ! targetDebt avalanche ds))) \<and>
      (targetDebt snowball ds < length ds \<and> 0 < currentAmount (ds ! targetDebt snowball ds) \<and>
       (\<forall>j<length ds. 0 < currentAmount (ds ! j) \<longrightarrow>
          currentAmount (ds ! targetDebt snowball ds) \<le> currentAmount (ds ! j)) \<and>
       (\<forall>j<targetDebt snowball ds. 0 < currentAmount (ds ! j) \<longrightarrow>
          currentAmount (ds ! targetDebt snowball ds) < currentAmount (ds ! j))))"
proof (intro conjI impI)
  assume a: "analysis debts = Some r"
  let ?P = "\<lambda>d. currentAmount d > 0"
  from analysis_Some [OF a] have ne: "filter ?P debts \<noteq> []"
    and hi: "maxInterestDebt r = hd (js_sort byRateDesc (filter ?P debts))"
    and lo: "minBalanceDebt r = hd (js_sort byBalanceAsc (filter ?P debts))"
    by simp_all
  show "\<exists>k<length debts. maxInterestDebt r = debts ! k \<and> 0 < currentAmount (debts ! k) \<and>
         (\<forall>j<length debts. 0 < currentAmount (debts ! j) \<longrightarrow>
            rateOrZero (debts ! j) \<le> rateOrZero (debts ! k)) \<and>
         (\<forall>j<k. 0 < currentAmount (debts ! j) \<longrightarrow>
            rateOrZero (debts ! j) < rateOrZero (debts ! k))"
    using hd_byRateDesc_first [OF ne] unfolding hi by simp
  show "\<exists>k<length debts. minBalanceDebt r = debts ! k \<and> 0 < currentAmount (debts ! k) \<and>
         (\<forall>j<length debts. 0 < currentAmount (debts ! j) \<longrightarrow>
            currentAmount (debts ! k) \<le> currentAmount (debts ! j)) \<and>
         (\<forall>j<k. 0 < currentAmount (debts ! j) \<longrightarrow>
            currentAmount (debts ! k) < currentAmount (debts ! j))"
    using hd_byBalanceAsc_first [OF ne] unfolding lo by simp
next
  assume "\<exists>i<length ds. 0 < currentAmount (ds ! i)"
  from targetDebt_avalanche_first [OF this]
  show "targetDebt avalanche ds < length ds"
    "0 < currentAmount (ds ! targetDebt avalanche ds)"
    "\<forall>j<length ds. 0 < currentAmount (ds ! j) \<longrightarrow>
          rateOrZero (ds ! j) \<le> rateOrZero (ds ! targetDebt avalanche ds)"
    "\<forall>j<targetDebt avalanche ds. 0 < currentAmount (ds ! j) \<longrightarrow>
          rateOrZero (ds ! j) < rateOrZero (ds ! targetDebt avalanche ds)"
    by simp_all
next
  assume "\<exists>i<length ds. 0 < currentAmount (ds ! i)"
  from targetDebt_snowball_first [OF this]
  show "targetDebt snowball ds < length ds"
    "0 < currentAmount (ds ! targetDebt snowball ds)"
    "\<forall>j<length ds. 0 < currentAmount (ds ! j) \<longrightarrow>
          currentAmount (ds ! targetDebt snowball ds) \<le> currentAmount (ds ! j)"
    "\<forall>j<targetDebt snowball ds. 0 < currentAmount (ds ! j) \<longrightarrow>
          currentAmount (ds ! targetDebt snowball ds) < currentAmount (ds ! j)"
    by simp_all
qed

theorem tie_break_first_occurrence_witness:
  "analysis tiedDebts =
     Some \<lparr>recommended = snowball, reason = SmallDebt ''B'' 50,
           maxInterestDebt = tiedDebts ! 1, minBalanceDebt = tiedDebts ! 1\<rparr> \<and>
   (\<exists>i<length tiedDebts. 0 < currentAmount (tiedDebts ! i)) \<and>
   rateOrZero (tiedDebts ! 1) = rateOrZero (tiedDebts ! 2) \<and>
   currentAmount (tiedDebts ! 1) = currentAmount (tiedDebts ! 2) \<and>
   targetDebt avalanche tiedDebts = 1 \<and> targetDebt snowball tiedDebts = 1"
proof -
  have a: "analysis tiedDebts =
     Some \<lparr>recommended = snowball, reason = SmallDebt ''B'' 50,
           maxInterestDebt = tiedDebts ! 1, minBalanceDebt = tiedDebts ! 1\<rparr>"
    by (simp add: analysis_def tiedDebts_def mkDebt_def js_sort_def byRateDesc_def
        byBalanceAsc_def rateOrZero_def Let_def)
  have e: "\<exists>i<length tiedDebts. 0 < currentAmount (tiedDebts ! i)"
    by (intro exI [of _ 0]) (simp add: tiedDebts_def mkDebt_def)
  have q: "rateOrZero (tiedDebts ! 1) = rateOrZero (tiedDebts ! 2) \<and>
           currentAmount (tiedDebts ! 1) = currentAmount (tiedDebts ! 2)"
    by (simp add: tiedDebts_def mkDebt_def rateOrZero_def)
  have t: "targetDebt avalanche tiedDebts = 1 \<and> targetDebt snowball tiedDebts = 1"
    by (simp add: targetDebt_def tiedDebts_def mkDebt_def js_sort_def byRateDesc_def
        byBalanceAsc_def rateOrZero_def Let_def upt_rec)
  show ?thesis
    using tie_break_first_occurrence [of tiedDebts
      "\<lparr>recommended = snowball, reason = SmallDebt ''B'' 50,
           maxInterestDebt = tiedDebts ! 1, minBalanceDebt = tiedDebts ! 1\<rparr>" tiedDebts]
      a e q t
    by blast
qed

section \<open>The loop as an iteration of the month\<close>

lemma month_simMonth: "month (simMonth pc st s) = Suc (month s)"
  by (simp add: simMonth_def Let_def split: prod.splits)

lemma month_funpow: "month ((simMonth pc st ^^ k) s) = month s + k"
  by (induction k) (simp_all add: month_simMonth)

lemma simLoop_funpow:
  "\<exists>n. simLoop pc st s = (simMonth pc st ^^ n) s \<and>
       (\<forall>k<n. loopCond ((simMonth pc st ^^ k) s)) \<and>
       \<not> loopCond ((simMonth pc st ^^ n) s)"
proof (induction pc st s rule: simLoop.induct)
  case (1 pc st s)
  show ?case
  proof (cases "loopCond s")
    case False
    then have "simLoop pc st s = (simMonth pc st ^^ 0) s"
      by (subst simLoop.simps) simp
    with False show ?thesis
      by (intro exI [of _ 0]) simp
  next
    case True
    from "1.IH" [OF True] obtain n where
      n: "simLoop pc st (simMonth pc st s) = (simMonth pc st ^^ n) (simMonth pc st s)"
         "\<forall>k<n. loopCond ((simMonth pc st ^^ k) (simMonth pc st s))"
         "\<not> loopCond ((simMonth pc st ^^ n) (simMonth pc st s))"
      by blast
    have "simLoop pc st s = (simMonth pc st ^^ Suc n) s"
      using True n(1) by (subst simLoop.simps) (simp add: funpow_swap1)
    moreover have "\<forall>k<Suc n. loopCond ((simMonth pc st ^^ k) s)"
    proof (intro allI impI)
      fix k assume "k < Suc n"
      then show "loopCond ((simMonth pc st ^^ k) s)"
        using True n(2) by (cases k) (simp_all add: funpow_swap1)
    qed
    moreover have "\<not> loopCond ((simMonth pc st ^^ Suc n) s)"
      using n(3) by (simp add: funpow_swap1)
    ultimately show ?thesis by blast
  qed
qed

lemma projectionData_simMonth:
  "projectionData (simMonth pc st s) = projectionData s @
     [\<lparr>month_label = Mes (Suc (month s)),
       deuda = max 0 (Math_round (totalDebtOf (simDebts (simMonth pc st s)))),
       riqueza = Math_round (accumulatedWealth (simMonth pc st s)),
       index = Suc (month s)\<rparr>]"
  by (simp add: simMonth_def Let_def split: prod.splits)

lemma currentTotalDebt_simMonth:
  "currentTotalDebt (simMonth pc st s) = totalDebtOf (simDebts (simMonth pc st s))"
  by (simp add: simMonth_def Let_def split: prod.splits)

lemma length_projectionData_funpow:
  "length (projectionData ((simMonth pc st ^^ k) s)) = length (projectionData s) + k"
  by (induction k) (simp_all add: projectionData_simMonth)



section \<open>The advisor and the interest step\<close>

lemma totalDebtOf_sum_list: "totalDebtOf ds = sum_list (map currentAmount ds)"
proof -
  have "foldl (\<lambda>acc d. acc + currentAmount d) a ds = a + sum_list (map currentAmount ds)" for a
    by (induction ds arbitrary: a) simp_all
  then show ?thesis by (simp add: totalDebtOf_def)
qed

text \<open>
  C5. Whenever some debt is active the advisor answers, and its rules apply in order, the
  first match winning: the highest rate among the active debts above 40 gives avalanche,
  citing that debt and its rate; otherwise the smallest active balance below 5000 gives
  snowball, citing that debt and its balance; otherwise avalanche with the general reason.
\<close>

theorem analysis_decision_rules:
  assumes "\<exists>d\<in>set debts. 0 < currentAmount d"
  shows "\<exists>r. analysis debts = Some r \<and>
     maxInterestDebt r \<in> set debts \<and> 0 < currentAmount (maxInterestDebt r) \<and>
     (\<forall>d\<in>set debts. 0 < currentAmount d \<longrightarrow> rateOrZero d \<le> rateOrZero (maxInterestDebt r)) \<and>
     minBalanceDebt r \<in> set debts \<and> 0 < currentAmount (minBalanceDebt r) \<and>
     (\<forall>d\<in>set debts. 0 < currentAmount d \<longrightarrow>
        currentAmount (minBalanceDebt r) \<le> currentAmount d) \<and>
     (if rateOrZero (maxInterestDebt r) > 40 then
        recommended r = avalanche \<and>
        reason r = VeryHighInterest (name (maxInterestDebt r)) (rateOrZero (maxInterestDebt r))
      else if currentAmount (minBalanceDebt r) < 5000 then
        recommended r = snowball \<and>
        reason r = SmallDebt (name (minBalanceDebt r)) (currentAmount (minBalanceDebt r))
      else recommended r = avalanche \<and> reason r = Mathematically)"
proof -
  let ?P = "\<lambda>d. currentAmount d > 0"
  have ne: "filter ?P debts \<noteq> []"
    using assms by (auto simp: filter_empty_conv)
  then have len: "length (filter ?P debts) \<noteq> 0" by simp
  have "analysis debts \<noteq> None"
    using len by (simp add: analysis_def Let_def)
  then obtain r where r: "analysis debts = Some r" by blast
  from analysis_Some [OF r]
  have hi: "maxInterestDebt r = hd (js_sort byRateDesc (filter ?P debts))"
    and lo: "minBalanceDebt r = hd (js_sort byBalanceAsc (filter ?P debts))"
    by simp_all
  from hd_byRateDesc_first [OF ne] obtain k where k: "k < length debts"
    "maxInterestDebt r = debts ! k" "?P (debts ! k)"
    "\<forall>j<length debts. ?P (debts ! j) \<longrightarrow> rateOrZero (debts ! j) \<le> rateOrZero (debts ! k)"
    unfolding hi by blast
  from hd_byBalanceAsc_first [OF ne] obtain m where m: "m < length debts"
    "minBalanceDebt r = debts ! m" "?P (debts ! m)"
    "\<forall>j<length debts. ?P (debts ! j) \<longrightarrow> currentAmount (debts ! m) \<le> currentAmount (debts ! j)"
    unfolding lo by blast
  have hi_max: "\<forall>d\<in>set debts. 0 < currentAmount d \<longrightarrow> rateOrZero d \<le> rateOrZero (maxInterestDebt r)"
    using k(2,4) by (auto simp: in_set_conv_nth)
  have lo_min: "\<forall>d\<in>set debts. 0 < currentAmount d \<longrightarrow>
        currentAmount (minBalanceDebt r) \<le> currentAmount d"
    using m(2,4) by (auto simp: in_set_conv_nth)
  have rules: "if rateOrZero (maxInterestDebt r) > 40 then
        recommended r = avalanche \<and>
        reason r = VeryHighInterest (name (maxInterestDebt r)) (rateOrZero (maxInterestDebt r))
      else if currentAmount (minBalanceDebt r) < 5000 then
        recommended r = snowball \<and>
        reason r = SmallDebt (name (minBalanceDebt r)) (currentAmount (minBalanceDebt r))
      else recommended r = avalanche \<and> reason r = Mathematically"
    using r len by (auto simp: analysis_def Let_def split: if_splits)
  have "maxInterestDebt r \<in> set debts" "minBalanceDebt r \<in> set debts"
    using k(1,2) m(1,2) by simp_all
  with r k(2,3) m(2,3) hi_max lo_min rules show ?thesis
    by (intro exI [of _ r]) simp
qed

theorem analysis_decision_rules_witness:
  "(\<exists>d\<in>set scenarioB. 0 < currentAmount d) \<and>
   analysis scenarioB =
     Some \<lparr>recommended = avalanche, reason = VeryHighInterest ''A'' 60,
           maxInterestDebt = scenarioB ! 0, minBalanceDebt = scenarioB ! 0\<rparr>"
proof -
  have e: "\<exists>d\<in>set scenarioB. 0 < currentAmount d"
    by (simp add: scenarioB_def mkDebt_def)
  have a: "analysis scenarioB =
     Some \<lparr>recommended = avalanche, reason = VeryHighInterest ''A'' 60,
           maxInterestDebt = scenarioB ! 0, minBalanceDebt = scenarioB ! 0\<rparr>"
    by (simp add: analysis_def scenarioB_def mkDebt_def js_sort_def byRateDesc_def
        byBalanceAsc_def rateOrZero_def Let_def)
  show ?thesis
    using analysis_decision_rules [of scenarioB] e a by blast
qed



section \<open>The payment passes and the null projection\<close>

text \<open>
  C4. With budget left after the minimums and some debt still active, the extra pass pays
  one debt only: the target receives min(balance, budget), every other debt stays as it
  is, and nothing goes to wealth. Under snowball the target has the smallest balance
  among the active debts, under avalanche the highest rate.
\<close>

theorem payExtra_single_target:
  assumes "0 < b" and "\<exists>i<length ds. 0 < currentAmount (ds ! i)"
  shows "\<exists>t<length ds. 0 < currentAmount (ds ! t) \<and>
     payExtra st ds b w =
       (ds[t := (ds ! t)\<lparr>currentAmount := currentAmount (ds ! t) - min (currentAmount (ds ! t)) b\<rparr>],
        b - min (currentAmount (ds ! t)) b, w) \<and>
     length (fst (payExtra st ds b w)) = length ds \<and>
     (\<forall>j<length ds. j \<noteq> t \<longrightarrow> fst (payExtra st ds b w) ! j = ds ! j) \<and>
     (st = snowball \<longrightarrow>
        (\<forall>j<length ds. 0 < currentAmount (ds ! j) \<longrightarrow> currentAmount (ds ! t) \<le> currentAmount (ds ! j))) \<and>
     (st = avalanche \<longrightarrow>
        (\<forall>j<length ds. 0 < currentAmount (ds ! j) \<longrightarrow> rateOrZero (ds ! j) \<le> rateOrZero (ds ! t)))"
proof -
  let ?t = "targetDebt st ds"
  have ne: "length (filter (\<lambda>i. currentAmount (ds ! i) > 0) [0..<length ds]) > 0"
    using assms(2) by (auto simp: filter_empty_conv)
  have eq: "payExtra st ds b w =
       (ds[?t := (ds ! ?t)\<lparr>currentAmount := currentAmount (ds ! ?t) - min (currentAmount (ds ! ?t)) b\<rparr>],
        b - min (currentAmount (ds ! ?t)) b, w)"
    using assms(1) ne by (simp add: payExtra_def Let_def)
  have tgt: "?t < length ds \<and> 0 < currentAmount (ds ! ?t) \<and>
     (st = snowball \<longrightarrow>
        (\<forall>j<length ds. 0 < currentAmount (ds ! j) \<longrightarrow> currentAmount (ds ! ?t) \<le> currentAmount (ds ! j))) \<and>
     (st = avalanche \<longrightarrow>
        (\<forall>j<length ds. 0 < currentAmount (ds ! j) \<longrightarrow> rateOrZero (ds ! j) \<le> rateOrZero (ds ! ?t)))"
  proof (cases st)
    case snowball
    with targetDebt_snowball_first [OF assms(2)] show ?thesis by simp
  next
    case avalanche
    with targetDebt_avalanche_first [OF assms(2)] show ?thesis by simp
  qed
  have "length (fst (payExtra st ds b w)) = length ds"
    by (simp add: eq)
  moreover have "\<forall>j<length ds. j \<noteq> ?t \<longrightarrow> fst (payExtra st ds b w) ! j = ds ! j"
    by (simp add: eq)
  ultimately show ?thesis
    using eq tgt by (intro exI [of _ ?t]) simp
qed

theorem payExtra_single_target_witness:
  "(0::real) < 200 \<and> (\<exists>i<length scenarioB. 0 < currentAmount (scenarioB ! i)) \<and>
   payExtra avalanche scenarioB 200 0 =
     ([mkDebt ''A'' 1000 (Some 60) 100\<lparr>currentAmount := 800\<rparr>, mkDebt ''B'' 5000 (Some 10) 100], 0, 0) \<and>
   payExtra snowball [mkDebt ''A'' 6000 (Some 60) 100, mkDebt ''B'' 5000 (Some 10) 100] 200 0 =
     ([mkDebt ''A'' 6000 (Some 60) 100, mkDebt ''B'' 5000 (Some 10) 100\<lparr>currentAmount := 4800\<rparr>], 0, 0)"
proof -
  have e: "\<exists>i<length scenarioB. 0 < currentAmount (scenarioB ! i)"
    by (intro exI [of _ 0]) (simp add: scenarioB_def mkDebt_def)
  have a: "payExtra avalanche scenarioB 200 0 =
     ([mkDebt ''A'' 1000 (Some 60) 100\<lparr>currentAmount := 800\<rparr>, mkDebt ''B'' 5000 (Some 10) 100], 0, 0)"
    by (simp add: payExtra_def targetDebt_def scenarioB_def mkDebt_def js_sort_def byRateDesc_def
        byBalanceAsc_def rateOrZero_def Let_def upt_rec)
  have s: "payExtra snowball [mkDebt ''A'' 6000 (Some 60) 100, mkDebt ''B'' 5000 (Some 10) 100] 200 0 =
     ([mkDebt ''A'' 6000 (Some 60) 100, mkDebt ''B'' 5000 (Some 10) 100\<lparr>currentAmount := 4800\<rparr>], 0, 0)"
    by (simp add: payExtra_def targetDebt_def mkDebt_def js_sort_def byRateDesc_def
        byBalanceAsc_def rateOrZero_def Let_def upt_rec)
  show ?thesis
    using payExtra_single_target [of 200 scenarioB avalanche 0] e a s by simp
qed

text \<open>
  C3, as the code has it. The minimum pass has no clamp: every debt with a positive
  balance is paid min(balance, minPayment) in full whatever the budget, and the budget
  left is the budget minus all those payments, negative when they exceed it.
\<close>

theorem payMinimums_unclamped:
  "payMinimums ds b =
     (map (\<lambda>d. if currentAmount d > 0
                then d\<lparr>currentAmount := currentAmount d - min (currentAmount d) (minPayment d)\<rparr>
                else d) ds,
      b - sum_list (map (\<lambda>d. if currentAmount d > 0 then min (currentAmount d) (minPayment d) else 0) ds))"
  by (induction ds arbitrary: b) (simp_all add: Let_def)

text \<open>
  C3 as stated fails: with a budget of 150 and two debts of minimum 100 each, both
  minimums are paid, 200 in all, and the budget ends at -50.
\<close>

theorem payMinimums_overdraws:
  "map currentAmount underfunded = [1000, 1000] \<and>
   map currentAmount (fst (payMinimums underfunded 150)) = [900, 900] \<and>
   totalDebtOf underfunded - totalDebtOf (fst (payMinimums underfunded 150)) > 150 \<and>
   snd (payMinimums underfunded 150) = - 50 \<and>
   snd (payMinimums underfunded 150) < 0"
  by (simp add: underfunded_def mkDebt_def totalDebtOf_def Let_def)

lemma payExtra_no_budget: "b \<le> 0 \<Longrightarrow> payExtra st ds b w = (ds, b, w)"
  by (simp add: payExtra_def)

text \<open>
  C2, as the code has it. The projection is null exactly when the balances sum to 0, so
  for an empty list or balances that are all zero there is no projection at all: no seed
  point and no debt-free month.
\<close>

theorem projection_null_without_debt:
  "(projection debts pc st = None \<longleftrightarrow> sum_list (map currentAmount debts) = 0) \<and>
   (debts = [] \<or> (\<forall>d\<in>set debts. currentAmount d = 0) \<longrightarrow> projection debts pc st = None)"
proof -
  have iff: "projection debts pc st = None \<longleftrightarrow> sum_list (map currentAmount debts) = 0"
    by (simp add: projection_def totalDebtOf_sum_list Let_def)
  have "sum_list (map currentAmount debts) = 0" if "\<forall>d\<in>set debts. currentAmount d = 0"
    using that by (induction debts) simp_all
  with iff show ?thesis by auto
qed

theorem projection_null_without_debt_witness:
  "map currentAmount settledDebts = [0, 0] \<and> projection settledDebts 1000 avalanche = None"
proof -
  have m: "map currentAmount settledDebts = [0, 0]"
    by (simp add: settledDebts_def mkDebt_def)
  then have "\<forall>d\<in>set settledDebts. currentAmount d = 0"
    by (simp add: settledDebts_def)
  with projection_null_without_debt [of settledDebts 1000 avalanche] m show ?thesis by blast
qed

text \<open>
  C2 as stated fails: for the empty list the result is null, not a projection holding the
  seed point.
\<close>

theorem projection_empty_is_null:
  "projection [] 1000 avalanche = None \<and>
   projection [] 1000 avalanche \<noteq>
     Some \<lparr>data = [\<lparr>month_label = Hoy, deuda = 0, riqueza = 0, index = 0\<rparr>], debtFreeInMonths = 0\<rparr>"
  by (simp add: projection_def totalDebtOf_def)

section \<open>Bounds of the loop, the points and the wealth\<close>

text \<open>
  C7. From the state before the loop, the loop runs the month n times, where n is between
  12 and 60: before each of the n months the condition (total debt > 0 or month < 12) and
  month < 60 holds, and after the n-th it fails. The final state has month n and n + 1
  points. So the loop ends after at most 60 months, goes on to month 12 even when the
  debt is gone earlier, and stops at month 60 whatever debt is left.
\<close>

theorem simLoop_bounds:
  "\<exists>n. 12 \<le> n \<and> n \<le> 60 \<and>
     simLoop pc st (initState debts) = (simMonth pc st ^^ n) (initState debts) \<and>
     month (simLoop pc st (initState debts)) = n \<and>
     length (projectionData (simLoop pc st (initState debts))) = n + 1 \<and>
     (\<forall>k<n. (currentTotalDebt ((simMonth pc st ^^ k) (initState debts)) > 0 \<or> k < 12) \<and> k < 60) \<and>
     \<not> ((currentTotalDebt ((simMonth pc st ^^ n) (initState debts)) > 0 \<or> n < 12) \<and> n < 60)"
proof -
  let ?s = "initState debts"
  let ?S = "\<lambda>k. (simMonth pc st ^^ k) ?s"
  have m0: "month ?s = 0" and l0: "length (projectionData ?s) = 1"
    by (simp_all add: initState_def)
  from simLoop_funpow [of pc st ?s] obtain n where
    n: "simLoop pc st ?s = ?S n" "\<forall>k<n. loopCond (?S k)" "\<not> loopCond (?S n)"
    by blast
  have mk: "month (?S k) = k" for k
    using month_funpow [of k pc st ?s] m0 by simp
  have run: "\<forall>k<n. (currentTotalDebt (?S k) > 0 \<or> k < 12) \<and> k < 60"
    using n(2) by (simp add: loopCond_def mk maxMonths_def)
  have stop: "\<not> ((currentTotalDebt (?S n) > 0 \<or> n < 12) \<and> n < 60)"
    using n(3) by (simp add: loopCond_def mk maxMonths_def)
  have "n \<le> 60"
  proof (rule ccontr)
    assume "\<not> n \<le> 60"
    then have "60 < n" by simp
    with run have "(60::nat) < 60" by blast
    then show False by simp
  qed
  moreover have "12 \<le> n" using stop by auto
  moreover have "month (simLoop pc st ?s) = n" by (simp add: n(1) mk)
  moreover have "length (projectionData (simLoop pc st ?s)) = n + 1"
    by (simp add: n(1) length_projectionData_funpow l0)
  ultimately show ?thesis using n(1) run stop by blast
qed

theorem simLoop_bounds_witness:
  "currentTotalDebt ((simMonth 1000 avalanche ^^ 1) (initState paidOffEarly)) = 0 \<and>
   month (simLoop 1000 avalanche (initState paidOffEarly)) = 12 \<and>
   length (projectionData (simLoop 1000 avalanche (initState paidOffEarly))) = 13 \<and>
   month (simLoop 0 avalanche (initState stuckDebt)) = 60 \<and>
   currentTotalDebt (simLoop 0 avalanche (initState stuckDebt)) = 1000"
proof -
  have a: "currentTotalDebt ((simMonth 1000 avalanche ^^ 1) (initState paidOffEarly)) = 0"
    by code_simp
  have b: "month (simLoop 1000 avalanche (initState paidOffEarly)) = 12"
    by code_simp
  have c: "length (projectionData (simLoop 1000 avalanche (initState paidOffEarly))) = 13"
    by code_simp
  have d: "month (simLoop 0 avalanche (initState stuckDebt)) = 60"
    by code_simp
  have e: "currentTotalDebt (simLoop 0 avalanche (initState stuckDebt)) = 1000"
    by code_simp
  show ?thesis
    using simLoop_bounds [of 1000 avalanche paidOffEarly] a b c d e by blast
qed

text \<open>\<open>Math_round\<close> gives an integer at most one half away.\<close>

lemma Math_round_nearest:
  "Math_round x \<in> \<int> \<and> \<bar>Math_round x - x\<bar> \<le> 1 / 2"
proof -
  have "of_int \<lfloor>x + 1 / 2\<rfloor> \<le> x + 1 / 2" "x + 1 / 2 < of_int \<lfloor>x + 1 / 2\<rfloor> + 1"
    by linarith+
  then have "\<bar>of_int \<lfloor>x + 1 / 2\<rfloor> - x\<bar> \<le> 1 / 2" by linarith
  then show ?thesis unfolding Math_round_def by simp
qed




lemma applyInterest_settled:
  "\<forall>d\<in>set ds. currentAmount d = 0 \<Longrightarrow> applyInterest ds = ds"
  by (simp add: applyInterest_def map_idI)

lemma payMinimums_settled:
  "\<forall>d\<in>set ds. currentAmount d = 0 \<Longrightarrow> payMinimums ds b = (ds, b)"
  by (induction ds arbitrary: b) simp_all

lemma payExtra_settled:
  "\<forall>d\<in>set ds. currentAmount d = 0 \<Longrightarrow> 0 < b \<Longrightarrow> payExtra st ds b w = (ds, b, w + b)"
  by (simp add: payExtra_def filter_empty_conv)

lemma totalDebtOf_settled:
  "\<forall>d\<in>set ds. currentAmount d = 0 \<Longrightarrow> totalDebtOf ds = 0"
  unfolding totalDebtOf_sum_list by (induction ds) simp_all

text \<open>
  A month that starts with every balance at 0 and a positive budget leaves the debts as
  they are and adds the budget to the wealth twice: once in the extra pass, where no debt
  is active and the budget is not reduced, and once more after the total is recomputed.
\<close>

lemma simMonth_settled_wealth:
  assumes "\<forall>d\<in>set (simDebts s). currentAmount d = 0" and "0 < pc"
  shows "simDebts (simMonth pc st s) = simDebts s \<and>
         accumulatedWealth (simMonth pc st s) = accumulatedWealth s + 2 * pc"
proof -
  have "totalDebtOf (simDebts s) = 0"
    using assms(1) by (rule totalDebtOf_settled)
  then show ?thesis
    using assms
    by (simp add: simMonth_def Let_def applyInterest_settled payMinimums_settled payExtra_settled)
qed

text \<open>
  C1 on the code. One debt of 1000 at rate 0 with minimum 500 and a budget of 1000 is paid
  off in month 1. From month 2 on the wealth of the points grows by 2000 a month, twice
  the budget, where C1 states a growth of exactly the budget.
\<close>

theorem wealth_counted_twice:
  "projection paidOffEarly 1000 avalanche \<noteq> None \<and>
   map deuda (data (the (projection paidOffEarly 1000 avalanche))) =
     [1000, 0, 0, 0, 0, 0, 0, 0, 0, 0, 0, 0, 0] \<and>
   map riqueza (data (the (projection paidOffEarly 1000 avalanche))) =
     [0, 0, 2000, 4000, 6000, 8000, 10000, 12000, 14000, 16000, 18000, 20000, 22000]"
  by code_simp

end
